theory Spec2Isabelle
  imports Complex_Main "HOL-Library.Char_ord" "HOL-Library.List_Lexorder"
begin

section \<open>Telco churn dashboard (app.py): data model\<close>

text \<open>
  Python values that occur in the record, as prediction labels and in the dict handed to
  the report generator. A Python float is modelled by a real number; no claim below
  depends on floating-point arithmetic, floats are only stored, compared with 1 and handed
  to a formatter.
\<close>

datatype pyval = PStr string | PInt int | PFloat real | PBool bool | PNone

text \<open>
  Python's \<^verbatim>\<open>v == 1\<close>: numbers compare by value (\<^verbatim>\<open>1.0 == 1\<close> and
  \<^verbatim>\<open>True == 1\<close> hold), a string or None never equals 1.
\<close>

fun py_eq_1 :: "pyval \<Rightarrow> bool" where
  "py_eq_1 (PInt i) = (i = 1)"
| "py_eq_1 (PFloat r) = (r = 1)"
| "py_eq_1 (PBool b) = b"
| "py_eq_1 (PStr s) = False"
| "py_eq_1 PNone = False"

text \<open>
  The values the widgets of lines 24--55 return in one run of the script: text inputs and
  select boxes return strings, the tenure number input (integer bounds) an int, the two
  charges inputs (float bounds) floats.
\<close>

record form =
  customer_id :: string
  gender :: string
  senior_citizen :: string
  partner :: string
  dependents :: string
  tenure :: int
  phone_service :: string
  multiple_lines :: string
  internet_service :: string
  online_security :: string
  online_backup :: string
  device_protection :: string
  tech_support :: string
  streaming_tv :: string
  streaming_movies :: string
  contract :: string
  paperless_billing :: string
  payment_method :: string
  monthly_charges :: real
  total_charges :: real

text \<open>
  A Python dict is an association list in insertion order; a one-row DataFrame built from
  a list of dicts is the list of its rows.
\<close>

type_synonym pydict = "(string \<times> pyval) list"
type_synonym dataframe = "pydict list"

subsection \<open>build_input_df (lines 58--83)\<close>

definition build_input_df :: "form \<Rightarrow> dataframe" where
  "build_input_df f =
     [[(''customerID'', PStr (customer_id f)),
       (''gender'', PStr (gender f)),
       (''SeniorCitizen'', PInt (if senior_citizen f = ''Yes'' then 1 else 0)),
       (''Partner'', PStr (partner f)),
       (''Dependents'', PStr (dependents f)),
       (''tenure'', PInt (tenure f)),
       (''PhoneService'', PStr (phone_service f)),
       (''MultipleLines'', PStr (multiple_lines f)),
       (''InternetService'', PStr (internet_service f)),
       (''OnlineSecurity'', PStr (online_security f)),
       (''OnlineBackup'', PStr (online_backup f)),
       (''DeviceProtection'', PStr (device_protection f)),
       (''TechSupport'', PStr (tech_support f)),
       (''StreamingTV'', PStr (streaming_tv f)),
       (''StreamingMovies'', PStr (streaming_movies f)),
       (''Contract'', PStr (contract f)),
       (''PaperlessBilling'', PStr (paperless_billing f)),
       (''PaymentMethod'', PStr (payment_method f)),
       (''MonthlyCharges'', PFloat (monthly_charges f)),
       (''TotalCharges'', PFloat (total_charges f))]]"

text \<open>The 20 column names of the training data, as section 3 of the specification lists them.\<close>

definition training_columns :: "string list" where
  "training_columns =
     [''customerID'', ''gender'', ''SeniorCitizen'', ''Partner'', ''Dependents'', ''tenure'',
      ''PhoneService'', ''MultipleLines'', ''InternetService'', ''OnlineSecurity'',
      ''OnlineBackup'', ''DeviceProtection'', ''TechSupport'', ''StreamingTV'',
      ''StreamingMovies'', ''Contract'', ''PaperlessBilling'', ''PaymentMethod'',
      ''MonthlyCharges'', ''TotalCharges'']"

text \<open>A form as the widgets' defaults give it (first option of every select box).\<close>

definition form0 :: form where
  "form0 = \<lparr>customer_id = '''', gender = ''Male'', senior_citizen = ''No'', partner = ''No'',
     dependents = ''No'', tenure = 12, phone_service = ''No'', multiple_lines = ''No'',
     internet_service = ''DSL'', online_security = ''No'', online_backup = ''No'',
     device_protection = ''No'', tech_support = ''No'', streaming_tv = ''No'',
     streaming_movies = ''No'', contract = ''Month-to-month'', paperless_billing = ''No'',
     payment_method = ''Electronic check'', monthly_charges = 50, total_charges = 500\<rparr>"

subsection \<open>Exceptions, the pipeline, Streamlit output\<close>

text \<open>
  An instance of Python's Exception class, carrying the text that \<^verbatim>\<open>str(e)\<close> gives.
  These are the exceptions \<^verbatim>\<open>except Exception\<close> catches.
\<close>

datatype exn = IndexError string | UnicodeEncodeError string | OtherException string

fun exn_str :: "exn \<Rightarrow> string" where
  "exn_str (IndexError m) = m"
| "exn_str (UnicodeEncodeError m) = m"
| "exn_str (OtherException m) = m"

text \<open>
  The fitted object \<^verbatim>\<open>joblib.load\<close> returns: predict always exists, predict_proba may be
  missing (\<^verbatim>\<open>hasattr\<close> is then False). Either call may raise.
\<close>

record pipeline =
  predict :: "dataframe \<Rightarrow> exn + pyval list"
  predict_proba :: "(dataframe \<Rightarrow> exn + real list list) option"

text \<open>Indexing a sequence with a non-negative index: IndexError when out of range.\<close>

definition py_index :: "'a list \<Rightarrow> nat \<Rightarrow> exn + 'a" where
  "py_index xs i = (if i < length xs then Inr (xs ! i) else Inl (IndexError ''index out of range''))"

text \<open>UTF-8 bytes of the three symbols the script prints.\<close>

definition cross_mark :: string where
  "cross_mark = [CHR 0xE2, CHR 0x9D, CHR 0x8C]"

definition check_mark :: string where
  "check_mark = [CHR 0xE2, CHR 0x9C, CHR 0x85]"

definition bar_chart :: string where
  "bar_chart = [CHR 0xF0, CHR 0x9F, CHR 0x93, CHR 0x8A]"

datatype st_out =
    StTitle string | StWrite string | StMarkdown string | StSubheader string
  | StTable pydict | StError string | StSuccess string

text \<open>
  The calls the script makes on an FPDF object, with their arguments: font family, style
  and size; red, green and blue; width, height, text, line break and alignment of a cell.
\<close>

datatype pdf_op =
    AddPage
  | SetAutoPageBreak bool nat
  | SetFont string string nat
  | SetTextColor nat nat nat
  | Cell nat nat string bool string
  | MultiCell nat nat string
  | Ln nat

text \<open>
  What a run of the script can change: the files of the working directory (name to
  document) and the elements shown on the page.
\<close>

record world =
  fs :: "string \<rightharpoonup> pdf_op list"
  outs :: "st_out list"

datatype status = Completed | Stopped | Raised exn

definition st :: "st_out \<Rightarrow> world \<Rightarrow> world" where
  "st x w = w\<lparr>outs := outs w @ [x]\<rparr>"

subsection \<open>The input summary (lines 126--131)\<close>

text \<open>\<^verbatim>\<open>str.lower\<close> on the ASCII range, which is all the column names use.\<close>

definition lower_char :: "char \<Rightarrow> char" where
  "lower_char c = (let n = (of_char c :: nat) in if 65 \<le> n \<and> n \<le> 90 then char_of (n + 32) else c)"

definition py_lower :: "string \<Rightarrow> string" where
  "py_lower s = map lower_char s"

text \<open>The transposed one-row frame: one line per column, the column name as index.\<close>

definition transposed :: "dataframe \<Rightarrow> pydict" where
  "transposed X = (case X of [row] \<Rightarrow> row | _ \<Rightarrow> [])"

definition drop_index :: "string \<Rightarrow> pydict \<Rightarrow> pydict" where
  "drop_index name d = filter (\<lambda>(k, v). k \<noteq> name) d"

definition display_df :: "dataframe \<Rightarrow> string \<Rightarrow> pydict" where
  "display_df X_new cid =
     (let d = transposed X_new in
      if count_list (map (py_lower \<circ> fst) d) ''customerid'' \<noteq> 0 \<and> cid = ''''
      then drop_index ''customerID'' d else d)"

subsection \<open>The predict handler (lines 122--151)\<close>

text \<open>
  Lines 135--141: the label is the first prediction; the probability is the second entry
  of the first row of predict_proba, or None when predict_proba is missing or anything
  inside the inner try raises.
\<close>

definition predict_step :: "pipeline \<Rightarrow> dataframe \<Rightarrow> exn + (pyval \<times> real option)" where
  "predict_step p X_new =
     (case predict p X_new of
        Inl e \<Rightarrow> Inl e
      | Inr preds \<Rightarrow>
          (case py_index preds 0 of
             Inl e \<Rightarrow> Inl e
           | Inr pred \<Rightarrow>
               Inr (pred,
                 (case predict_proba p of
                    None \<Rightarrow> None
                  | Some pp \<Rightarrow>
                      (case pp X_new of
                         Inl e \<Rightarrow> None
                       | Inr rows \<Rightarrow>
                           (case py_index rows 0 of
                              Inl e \<Rightarrow> None
                            | Inr r \<Rightarrow>
                                (case py_index r 1 of Inl e \<Rightarrow> None | Inr v \<Rightarrow> Some v)))))))"

text \<open>
  The body of \<^verbatim>\<open>if st.button(...)\<close>. The try has a finally and no except: an exception
  of the prediction leaves the handler after the finally block has written its line.
\<close>

definition predict_handler :: "pipeline \<Rightarrow> form \<Rightarrow> world \<Rightarrow> status \<times> world" where
  "predict_handler p f w =
     (let X_new = build_input_df f;
          w1 = st (StSubheader ''Input Summary'') w;
          w2 = st (StTable (display_df X_new (customer_id f))) w1
      in case predict_step p X_new of
           Inl e \<Rightarrow> (Raised e, st (StWrite ''Prediction attempt finished.'') w2)
         | Inr (pred, proba) \<Rightarrow>
             (let w3 = (if py_eq_1 pred
                        then st (StError (cross_mark @ '' This customer is likely to churn.'')) w2
                        else st (StSuccess (check_mark @ '' This customer is not likely to churn.'')) w2)
              in (Completed, st (StWrite ''Prediction attempt finished.'') w3)))"

text \<open>
  One run of the whole script: the result of \<^verbatim>\<open>joblib.load\<close>, the widget values and
  whether the Predict button was pressed are the inputs.
\<close>

definition app :: "exn + pipeline \<Rightarrow> form \<Rightarrow> bool \<Rightarrow> world \<Rightarrow> status \<times> world" where
  "app loaded f pressed w =
     (case loaded of
        Inl e \<Rightarrow> (Stopped, st (StError (cross_mark @ '' Failed to load model: '' @ exn_str e)) w)
      | Inr p \<Rightarrow>
          (let w1 = st (StTitle (bar_chart @ '' Telco Customer Churn Prediction Dashboard'')) w;
               w2 = st (StWrite ''Fill the form and click Predict. A downloadable PDF report will be generated.'') w1;
               w3 = st (StMarkdown ''### Customer details'') w2;
               w4 = st (StMarkdown ''### Billing'') w3
           in if pressed then predict_handler p f w4 else (Completed, w4)))"

definition is_verdict :: "st_out \<Rightarrow> bool" where
  "is_verdict x =
     (x = StError (cross_mark @ '' This customer is likely to churn.'')
      \<or> x = StSuccess (check_mark @ '' This customer is not likely to churn.''))"

subsection \<open>Timestamps\<close>

text \<open>
  The value of \<^verbatim>\<open>datetime.now()\<close>: a naive local date and time. Validity, the ordinal
  of a date and the distance of two timestamps follow Python's datetime module.
\<close>

record datetime =
  year :: nat
  month :: nat
  day :: nat
  hour :: nat
  minute :: nat
  second :: nat
  microsecond :: nat

definition is_leap :: "nat \<Rightarrow> bool" where
  "is_leap y = (y mod 4 = 0 \<and> (y mod 100 \<noteq> 0 \<or> y mod 400 = 0))"

definition days_in_month :: "nat \<Rightarrow> nat \<Rightarrow> nat" where
  "days_in_month y m =
     (if m = 2 \<and> is_leap y then 29
      else [0, 31, 28, 31, 30, 31, 30, 31, 31, 30, 31, 30, 31] ! m)"

definition days_before_month :: "nat \<Rightarrow> nat \<Rightarrow> nat" where
  "days_before_month y m =
     [0, 0, 31, 59, 90, 120, 151, 181, 212, 243, 273, 304, 334] ! m
       + (if m > 2 \<and> is_leap y then 1 else 0)"

definition days_before_year :: "nat \<Rightarrow> nat" where
  "days_before_year y = (y - 1) * 365 + (y - 1) div 4 - (y - 1) div 100 + (y - 1) div 400"

definition ymd2ord :: "nat \<Rightarrow> nat \<Rightarrow> nat \<Rightarrow> nat" where
  "ymd2ord y m d = days_before_year y + days_before_month y m + d"

definition valid_datetime :: "datetime \<Rightarrow> bool" where
  "valid_datetime t =
     (1 \<le> year t \<and> year t \<le> 9999 \<and> 1 \<le> month t \<and> month t \<le> 12
      \<and> 1 \<le> day t \<and> day t \<le> days_in_month (year t) (month t)
      \<and> hour t < 24 \<and> minute t < 60 \<and> second t < 60 \<and> microsecond t < 1000000)"

text \<open>Microseconds since the start of day 0 of the proleptic Gregorian calendar.\<close>

definition to_micro :: "datetime \<Rightarrow> nat" where
  "to_micro t =
     (((ymd2ord (year t) (month t) (day t) * 24 + hour t) * 60 + minute t) * 60 + second t) * 1000000
       + microsecond t"

subsection \<open>Formatting\<close>

definition digit_char :: "nat \<Rightarrow> char" where
  "digit_char n = char_of (48 + n)"

fun dec :: "nat \<Rightarrow> string" where
  "dec n = (if n < 10 then [digit_char n] else dec (n div 10) @ [digit_char (n mod 10)])"

declare dec.simps [simp del]

definition int_str :: "int \<Rightarrow> string" where
  "int_str i = (if i < 0 then ''-'' @ dec (nat (- i)) else dec (nat i))"

definition zpad :: "nat \<Rightarrow> string \<Rightarrow> string" where
  "zpad w s = replicate (w - length s) (CHR ''0'') @ s"

text \<open>
  \<^verbatim>\<open>strftime('%Y%m%d_%H%M%S')\<close> and \<^verbatim>\<open>strftime('%Y-%m-%d %H:%M:%S')\<close>: every
  field is a decimal number padded with zeros to its width, four digits for the year as
  Python documents \<^verbatim>\<open>%Y\<close>, two for the others.
\<close>

definition strftime_compact :: "datetime \<Rightarrow> string" where
  "strftime_compact t =
     zpad 4 (dec (year t)) @ zpad 2 (dec (month t)) @ zpad 2 (dec (day t)) @ ''_''
       @ zpad 2 (dec (hour t)) @ zpad 2 (dec (minute t)) @ zpad 2 (dec (second t))"

definition strftime_iso :: "datetime \<Rightarrow> string" where
  "strftime_iso t =
     zpad 4 (dec (year t)) @ ''-'' @ zpad 2 (dec (month t)) @ ''-'' @ zpad 2 (dec (day t)) @ '' ''
       @ zpad 2 (dec (hour t)) @ '':'' @ zpad 2 (dec (minute t)) @ '':'' @ zpad 2 (dec (second t))"

text \<open>
  Python's rendering of a float, by \<^verbatim>\<open>str\<close> and by the format \<^verbatim>\<open>.2%\<close>, is outside
  the script; both are parameters of the report generator's model.
\<close>

record float_fmt =
  float_str :: "real \<Rightarrow> string"
  float_pct :: "real \<Rightarrow> string"





fun py_str :: "float_fmt \<Rightarrow> pyval \<Rightarrow> string" where
  "py_str fm (PStr s) = s"
| "py_str fm (PInt i) = int_str i"
| "py_str fm (PFloat r) = float_str fm r"
| "py_str fm (PBool b) = (if b then ''True'' else ''False'')"
| "py_str fm PNone = ''None''"

subsection \<open>generate_pdf (lines 86--119)\<close>

text \<open>
  The FPDF object is modelled by the sequence of calls made on it (pdf_calls, lines
  87--115). The two readings of the clock (lines 96 and 117) are parameters.
\<close>

definition result_text :: "pyval \<Rightarrow> string" where
  "result_text pred_label =
     (if py_eq_1 pred_label then ''LIKELY TO CHURN '' @ cross_mark
      else ''NOT LIKELY TO CHURN '' @ check_mark)"

definition item_line :: "float_fmt \<Rightarrow> string \<times> pyval \<Rightarrow> string" where
  "item_line fm kv = fst kv @ '': '' @ py_str fm (snd kv)"

definition pdf_calls :: "float_fmt \<Rightarrow> datetime \<Rightarrow> pydict \<Rightarrow> pyval \<Rightarrow> real option \<Rightarrow> pdf_op list" where
  "pdf_calls fm now1 customer_dict pred_label pred_proba =
     [AddPage, SetAutoPageBreak True 15,
      SetFont ''Arial'' ''B'' 16,
      Cell 0 10 ''Telco Customer Churn Prediction Report'' True ''C'',
      Ln 6,
      SetFont ''Arial'' '''' 11,
      Cell 0 7 (''Generated: '' @ strftime_iso now1) True '''',
      Ln 6,
      SetFont ''Arial'' ''B'' 12,
      Cell 0 7 ''Customer Input:'' True '''',
      SetFont ''Arial'' '''' 10]
     @ map (\<lambda>kv. MultiCell 0 6 (item_line fm kv)) customer_dict
     @ [Ln 4,
        SetFont ''Arial'' ''B'' 12,
        (if py_eq_1 pred_label then SetTextColor 200 30 30 else SetTextColor 30 130 30),
        Cell 0 8 (''Prediction: '' @ result_text pred_label) True '''']
     @ (case pred_proba of
          None \<Rightarrow> []
        | Some p \<Rightarrow>
            [SetTextColor 0 0 0,
             SetFont ''Arial'' '''' 10,
             Cell 0 7 (''Probability of churn: '' @ float_pct fm p) True ''''])"

definition report_filename :: "datetime \<Rightarrow> string" where
  "report_filename now2 = ''churn_report_'' @ strftime_compact now2 @ ''.pdf''"

text \<open>
  \<^verbatim>\<open>pdf.output\<close> (line 118). Only the core font Arial is set, and with a core font the
  FPDF class encodes the text of the page as latin-1 when the document is output: a
  character outside latin-1 raises UnicodeEncodeError before the file is opened, and
  nothing is written. Strings are UTF-8 byte lists here, where a character is outside
  latin-1 exactly when its first byte is 0xC4 or more.
\<close>

fun op_text :: "pdf_op \<Rightarrow> string" where
  "op_text (Cell w h t l a) = t"
| "op_text (MultiCell w h t) = t"
| "op_text x = ''''"

definition latin1_encodable :: "string \<Rightarrow> bool" where
  "latin1_encodable s = list_all (\<lambda>c. (of_char c :: nat) < 196) s"

definition pdf_output ::
  "pdf_op list \<Rightarrow> string \<Rightarrow> (string \<rightharpoonup> pdf_op list) \<Rightarrow> exn + (string \<rightharpoonup> pdf_op list)" where
  "pdf_output pdf filename files =
     (if list_all (\<lambda>x. latin1_encodable (op_text x)) pdf
      then Inr (files(filename \<mapsto> pdf))
      else Inl (UnicodeEncodeError ''ordinal not in range(256)''))"

definition generate_pdf ::
  "float_fmt \<Rightarrow> datetime \<Rightarrow> datetime \<Rightarrow> pydict \<Rightarrow> pyval \<Rightarrow> real option
     \<Rightarrow> (string \<rightharpoonup> pdf_op list) \<Rightarrow> exn + string \<times> (string \<rightharpoonup> pdf_op list)" where
  "generate_pdf fm now1 now2 customer_dict pred_label pred_proba files =
     (let pdf = pdf_calls fm now1 customer_dict pred_label pred_proba;
          filename = report_filename now2
      in case pdf_output pdf filename files of
           Inl e \<Rightarrow> Inl e
         | Inr files' \<Rightarrow> Inr (filename, files'))"





text \<open>
  Whole seconds of a timestamp, the length of a year, and the order of two timestamps by
  their fields down to the second.
\<close>

definition to_seconds :: "datetime \<Rightarrow> nat" where
  "to_seconds t = ((ymd2ord (year t) (month t) (day t) * 24 + hour t) * 60 + minute t) * 60 + second t"

definition days_in_year :: "nat \<Rightarrow> nat" where
  "days_in_year y = (if is_leap y then 366 else 365)"

definition fields_less :: "datetime \<Rightarrow> datetime \<Rightarrow> bool" where
  "fields_less s t =
     (year s < year t \<or> year s = year t \<and>
       (month s < month t \<or> month s = month t \<and>
         (day s < day t \<or> day s = day t \<and>
           (hour s < hour t \<or> hour s = hour t \<and>
             (minute s < minute t \<or> minute s = minute t \<and> second s < second t)))))"

subsection \<open>Concrete inputs\<close>


definition world0 :: world where
  "world0 = \<lparr>fs = Map.empty, outs = []\<rparr>"

definition stamp0 :: datetime where
  "stamp0 = \<lparr>year = 2024, month = 3, day = 9, hour = 7, minute = 5, second = 59, microsecond = 250000\<rparr>"

definition stamp1 :: datetime where
  "stamp1 = \<lparr>year = 2024, month = 3, day = 9, hour = 7, minute = 6, second = 0, microsecond = 250000\<rparr>"

definition pipe_ok :: pipeline where
  "pipe_ok = \<lparr>predict = (\<lambda>X. Inr [PInt 1]), predict_proba = Some (\<lambda>X. Inr [[1/8, 7/8]])\<rparr>"

definition pipe_no_proba :: pipeline where
  "pipe_no_proba = \<lparr>predict = (\<lambda>X. Inr [PInt 0]), predict_proba = None\<rparr>"

definition pipe_proba_raises :: pipeline where
  "pipe_proba_raises =
     \<lparr>predict = (\<lambda>X. Inr [PInt 1]), predict_proba = Some (\<lambda>X. Inl (OtherException ''no proba''))\<rparr>"

definition pipe_fails :: pipeline where
  "pipe_fails = \<lparr>predict = (\<lambda>X. Inl (OtherException ''columns are missing'')), predict_proba = None\<rparr>"

section \<open>Schema mapper\<close>

text \<open>
  C2. For every combination of captured field values, build_input_df returns a single row
  whose keys are exactly the 20 training column names, in order and without duplicates;
  SeniorCitizen is 1 if and only if the captured choice is "Yes" and 0 otherwise; every
  other key holds the captured value unchanged.
\<close>

theorem build_input_df_schema:
  "\<exists>row. build_input_df f = [row]
     \<and> map fst row = training_columns
     \<and> length row = 20 \<and> distinct (map fst row)
     \<and> (map_of row ''SeniorCitizen'' = Some (PInt 1) \<longleftrightarrow> senior_citizen f = ''Yes'')
     \<and> (map_of row ''SeniorCitizen'' = Some (PInt 0) \<longleftrightarrow> senior_citizen f \<noteq> ''Yes'')
     \<and> map_of row ''customerID'' = Some (PStr (customer_id f))
     \<and> map_of row ''gender'' = Some (PStr (gender f))
     \<and> map_of row ''Partner'' = Some (PStr (partner f))
     \<and> map_of row ''Dependents'' = Some (PStr (dependents f))
     \<and> map_of row ''tenure'' = Some (PInt (tenure f))
     \<and> map_of row ''PhoneService'' = Some (PStr (phone_service f))
     \<and> map_of row ''MultipleLines'' = Some (PStr (multiple_lines f))
     \<and> map_of row ''InternetService'' = Some (PStr (internet_service f))
     \<and> map_of row ''OnlineSecurity'' = Some (PStr (online_security f))
     \<and> map_of row ''OnlineBackup'' = Some (PStr (online_backup f))
     \<and> map_of row ''DeviceProtection'' = Some (PStr (device_protection f))
     \<and> map_of row ''TechSupport'' = Some (PStr (tech_support f))
     \<and> map_of row ''StreamingTV'' = Some (PStr (streaming_tv f))
     \<and> map_of row ''StreamingMovies'' = Some (PStr (streaming_movies f))
     \<and> map_of row ''Contract'' = Some (PStr (contract f))
     \<and> map_of row ''PaperlessBilling'' = Some (PStr (paperless_billing f))
     \<and> map_of row ''PaymentMethod'' = Some (PStr (payment_method f))
     \<and> map_of row ''MonthlyCharges'' = Some (PFloat (monthly_charges f))
     \<and> map_of row ''TotalCharges'' = Some (PFloat (total_charges f))"
  by (simp add: build_input_df_def training_columns_def)

theorem build_input_df_schema_witness:
  "\<exists>row. build_input_df (form0\<lparr>senior_citizen := ''Yes''\<rparr>) = [row]
     \<and> map fst row = training_columns
     \<and> map_of row ''SeniorCitizen'' = Some (PInt 1)
     \<and> map_of row ''tenure'' = Some (PInt 12)"
  using build_input_df_schema [of "form0\<lparr>senior_citizen := ''Yes''\<rparr>"]
  by (auto simp add: form0_def)

text \<open>
  C10. Whatever the captured values, the row built by build_input_df contains the key
  customerID; with a blank identity field the key is still there, holding the empty
  string, so the row always has exactly 20 distinct keys.
\<close>

theorem build_input_df_keeps_customerID:
  "\<exists>row. build_input_df f = [row]
     \<and> ''customerID'' \<in> set (map fst row)
     \<and> map_of row ''customerID'' = Some (PStr (customer_id f))
     \<and> card (set (map fst row)) = 20"
  by (simp add: build_input_df_def)

theorem build_input_df_keeps_customerID_witness:
  "customer_id form0 = '''' \<and>
   (\<exists>row. build_input_df form0 = [row]
     \<and> ''customerID'' \<in> set (map fst row)
     \<and> map_of row ''customerID'' = Some (PStr '''')
     \<and> card (set (map fst row)) = 20)"
  using build_input_df_keeps_customerID [of form0]
  by (simp add: form0_def)

section \<open>Predict handler\<close>

text \<open>
  C3. When the prediction call returns a first label, the predict step returns that label
  and never raises. The probability is absent when the pipeline has no predict_proba and
  when predict_proba raises; when predict_proba returns rows, the probability is the second
  entry of the first row.
\<close>

theorem predict_step_probability:
  assumes "predict p X = Inr (l # ls)"
  shows "(\<exists>pr. predict_step p X = Inr (l, pr))
    \<and> (predict_proba p = None \<longrightarrow> predict_step p X = Inr (l, None))
    \<and> (\<forall>pp e. predict_proba p = Some pp \<and> pp X = Inl e \<longrightarrow> predict_step p X = Inr (l, None))
    \<and> (\<forall>pp a b r rows. predict_proba p = Some pp \<and> pp X = Inr ((a # b # r) # rows)
          \<longrightarrow> predict_step p X = Inr (l, Some b))"
  using assms
  by (auto simp add: predict_step_def py_index_def split: sum.splits option.splits)

theorem predict_step_probability_witness:
  "predict pipe_no_proba (build_input_df form0) = Inr [PInt 0]
   \<and> predict_step pipe_no_proba (build_input_df form0) = Inr (PInt 0, None)
   \<and> predict pipe_proba_raises (build_input_df form0) = Inr [PInt 1]
   \<and> predict_step pipe_proba_raises (build_input_df form0) = Inr (PInt 1, None)
   \<and> predict pipe_ok (build_input_df form0) = Inr [PInt 1]
   \<and> predict_step pipe_ok (build_input_df form0) = Inr (PInt 1, Some (7/8))"
proof -
  let ?X = "build_input_df form0"
  have a: "predict pipe_no_proba ?X = Inr [PInt 0]"
    and b: "predict pipe_proba_raises ?X = Inr [PInt 1]"
    and c: "predict pipe_ok ?X = Inr [PInt 1]"
    by (simp_all add: pipe_no_proba_def pipe_proba_raises_def pipe_ok_def)
  have pa: "predict_proba pipe_no_proba = None"
    by (simp add: pipe_no_proba_def)
  have pb: "predict_proba pipe_proba_raises = Some (\<lambda>X. Inl (OtherException ''no proba''))
      \<and> (\<lambda>X. Inl (OtherException ''no proba'')) ?X = Inl (OtherException ''no proba'')"
    by (simp add: pipe_proba_raises_def)
  have pc: "predict_proba pipe_ok = Some (\<lambda>X. Inr [[1/8, 7/8]])
      \<and> (\<lambda>X. Inr [[1/8, 7/8 :: real]]) ?X = Inr ((1/8 # 7/8 # []) # [])"
    by (simp add: pipe_ok_def)
  note ta = predict_step_probability [OF a] and tb = predict_step_probability [OF b]
    and tc = predict_step_probability [OF c]
  from ta pa have ra: "predict_step pipe_no_proba ?X = Inr (PInt 0, None)"
    by blast
  from tb have "\<forall>pp e. predict_proba pipe_proba_raises = Some pp \<and> pp ?X = Inl e
      \<longrightarrow> predict_step pipe_proba_raises ?X = Inr (PInt 1, None)"
    by blast
  from this [rule_format, OF pb]
  have rb: "predict_step pipe_proba_raises ?X = Inr (PInt 1, None)" .
  from tc have "\<forall>pp a b r rows. predict_proba pipe_ok = Some pp \<and> pp ?X = Inr ((a # b # r) # rows)
      \<longrightarrow> predict_step pipe_ok ?X = Inr (PInt 1, Some b)"
    by blast
  from this [rule_format, OF pc]
  have rc: "predict_step pipe_ok ?X = Inr (PInt 1, Some (7/8))" .
  from a b c ra rb rc show ?thesis
    by blast
qed

text \<open>
  C6. When the prediction call itself raises, the handler ends by raising that exception:
  the page gets the input summary and the line of the finally block, no verdict element,
  and nothing is written to disk.
\<close>

theorem predict_failure_is_fatal:
  assumes "predict p (build_input_df f) = Inl e"
  shows "fst (predict_handler p f w) = Raised e
    \<and> outs (snd (predict_handler p f w)) =
        outs w @ [StSubheader ''Input Summary'',
                  StTable (display_df (build_input_df f) (customer_id f)),
                  StWrite ''Prediction attempt finished.'']
    \<and> (\<exists>new. outs (snd (predict_handler p f w)) = outs w @ new \<and> list_all (\<lambda>x. \<not> is_verdict x) new)
    \<and> fs (snd (predict_handler p f w)) = fs w"
  using assms
  by (simp add: predict_handler_def predict_step_def Let_def st_def is_verdict_def)

theorem predict_failure_is_fatal_witness:
  "predict pipe_fails (build_input_df form0) = Inl (OtherException ''columns are missing'')
   \<and> fst (predict_handler pipe_fails form0 world0) = Raised (OtherException ''columns are missing'')
   \<and> outs (snd (predict_handler pipe_fails form0 world0)) =
        [StSubheader ''Input Summary'',
         StTable (display_df (build_input_df form0) (customer_id form0)),
         StWrite ''Prediction attempt finished.'']"
proof -
  have h: "predict pipe_fails (build_input_df form0) = Inl (OtherException ''columns are missing'')"
    by (simp add: pipe_fails_def)
  show ?thesis
    using h predict_failure_is_fatal [OF h, of world0] by (simp add: world0_def)
qed

text \<open>
  C7. When loading the model fails, the run shows one error element with the text of the
  exception and stops: nothing else is put on the page, the handler is not reached whether
  or not the button is pressed, and the error element is not a verdict.
\<close>

theorem load_failure_halts:
  "app (Inl e) f pressed w =
     (Stopped, w\<lparr>outs := outs w @ [StError (cross_mark @ '' Failed to load model: '' @ exn_str e)]\<rparr>)
   \<and> \<not> is_verdict (StError (cross_mark @ '' Failed to load model: '' @ exn_str e))"
  by (simp add: app_def st_def is_verdict_def cross_mark_def)

lemma app_never_writes: "fs (snd (app loaded f pressed w)) = fs w"
  by (simp add: app_def predict_handler_def Let_def st_def split: sum.splits prod.splits)

text \<open>
  C1 (the script does not do this). Pressing Predict with a loaded pipeline that predicts
  label 1 completes and shows the verdict, and the working directory is as empty as before:
  the handler never calls generate_pdf, so no churn_report file is written.
\<close>

theorem predict_press_writes_no_report:
  "fst (app (Inr pipe_ok) form0 True world0) = Completed
   \<and> StError (cross_mark @ '' This customer is likely to churn.'')
        \<in> set (outs (snd (app (Inr pipe_ok) form0 True world0)))
   \<and> fs (snd (app (Inr pipe_ok) form0 True world0)) = Map.empty"
proof -
  have "predict_step pipe_ok (build_input_df form0) = Inr (PInt 1, Some (7/8))"
    by (simp add: predict_step_def pipe_ok_def py_index_def)
  then have "fst (app (Inr pipe_ok) form0 True world0) = Completed
      \<and> StError (cross_mark @ '' This customer is likely to churn.'')
          \<in> set (outs (snd (app (Inr pipe_ok) form0 True world0)))"
    by (simp add: app_def predict_handler_def Let_def st_def)
  moreover have "fs (snd (app (Inr pipe_ok) form0 True world0)) = Map.empty"
    by (simp add: app_never_writes world0_def)
  ultimately show ?thesis by simp
qed

section \<open>Report generator\<close>

lemma digit_chars:
  "digit_char 0 = CHR ''0''" "digit_char 1 = CHR ''1''" "digit_char 2 = CHR ''2''"
  "digit_char 3 = CHR ''3''" "digit_char 4 = CHR ''4''" "digit_char 5 = CHR ''5''"
  "digit_char 6 = CHR ''6''" "digit_char 7 = CHR ''7''" "digit_char 8 = CHR ''8''"
  "digit_char 9 = CHR ''9''" "digit_char (Suc 0) = CHR ''1''"
  by code_simp+






lemma not_latin1I: "c \<in> set s \<Longrightarrow> \<not> (of_char c :: nat) < 196 \<Longrightarrow> \<not> latin1_encodable s"
  by (auto simp add: latin1_encodable_def list_all_iff)

lemma lead_byte: "\<not> (of_char (CHR 0xE2) :: nat) < 196"
  by code_simp

lemma verdict_not_latin1: "\<not> latin1_encodable (''Prediction: '' @ result_text l)"
proof -
  have "CHR 0xE2 \<in> set (''Prediction: '' @ result_text l)"
    by (simp add: result_text_def cross_mark_def check_mark_def)
  then show ?thesis
    using lead_byte by (rule not_latin1I)
qed

text \<open>
  Whatever it is given, generate_pdf ends in the exception of \<^verbatim>\<open>pdf.output\<close>: both
  verdict texts of line 108 carry a symbol outside latin-1. No file is written.
\<close>

lemma generate_pdf_raises:
  "generate_pdf fm now1 now2 d l pr files = Inl (UnicodeEncodeError ''ordinal not in range(256)'')"
proof -
  have m: "Cell 0 8 (''Prediction: '' @ result_text l) True '''' \<in> set (pdf_calls fm now1 d l pr)"
    by (simp add: pdf_calls_def)
  have "\<not> latin1_encodable (op_text (Cell 0 8 (''Prediction: '' @ result_text l) True ''''))"
    by (simp only: op_text.simps verdict_not_latin1 simp_thms)
  with m have "\<not> list_all (\<lambda>x. latin1_encodable (op_text x)) (pdf_calls fm now1 d l pr)"
    unfolding list_all_iff by blast
  then show ?thesis
    by (simp add: generate_pdf_def pdf_output_def Let_def)
qed










section \<open>Report file names\<close>

subsection \<open>Digits\<close>

lemma of_char_digit: "n < 10 \<Longrightarrow> (of_char (digit_char n) :: nat) = 48 + n"
  by (simp add: digit_char_def)

lemma digit_char_less: "a < 10 \<Longrightarrow> b < 10 \<Longrightarrow> digit_char a < digit_char b \<longleftrightarrow> a < b"
  by (simp add: less_char_def of_char_digit)

lemma digit_char_eq: "a < 10 \<Longrightarrow> b < 10 \<Longrightarrow> digit_char a = digit_char b \<longleftrightarrow> a = b"
proof
  assume "a < 10" "b < 10" "digit_char a = digit_char b"
  then have "(of_char (digit_char a) :: nat) = of_char (digit_char b)" by simp
  with \<open>a < 10\<close> \<open>b < 10\<close> show "a = b" by (simp add: of_char_digit)
qed simp

lemma dec_small: "n < 10 \<Longrightarrow> dec n = [digit_char n]"
  by (subst dec.simps) simp

lemma zero_digit: "CHR ''0'' = digit_char 0"
  by (simp add: digit_chars)

lemma dec_0: "dec 0 = [CHR ''0'']"
  by (simp add: dec_small zero_digit)

lemma length_dec: "0 < w \<Longrightarrow> n < 10 ^ w \<Longrightarrow> length (dec n) \<le> w"
proof (induction w arbitrary: n)
  case 0
  then show ?case by simp
next
  case (Suc w)
  show ?case
  proof (cases "n < 10")
    case True
    then show ?thesis by (simp add: dec_small)
  next
    case False
    with Suc.prems have "0 < w"
      by (cases w) simp_all
    moreover from Suc.prems have "n div 10 < 10 ^ w"
      by (simp add: less_mult_imp_div_less mult.commute)
    ultimately have "length (dec (n div 10)) \<le> w"
      by (rule Suc.IH)
    with False show ?thesis
      by (subst dec.simps) simp
  qed
qed

lemma zpad_step:
  assumes "0 < w"
  shows "zpad (Suc w) (dec n) = zpad w (dec (n div 10)) @ [digit_char (n mod 10)]"
proof (cases "n < 10")
  case True
  have "replicate w (CHR ''0'') = replicate (w - 1) (CHR ''0'') @ [CHR ''0'']"
    using assms by (cases w) (simp_all add: replicate_append_same)
  with True show ?thesis
    by (simp add: zpad_def dec_small dec_0)
next
  case False
  then have "dec n = dec (n div 10) @ [digit_char (n mod 10)]"
    by (subst dec.simps) simp
  then show ?thesis
    by (simp add: zpad_def)
qed

lemma zpad_1: "n < 10 \<Longrightarrow> zpad (Suc 0) (dec n) = [digit_char n]"
  by (simp add: zpad_def dec_small)

lemma length_zpad: "0 < w \<Longrightarrow> n < 10 ^ w \<Longrightarrow> length (zpad w (dec n)) = w"
  using length_dec [of w n] by (simp add: zpad_def)

lemma append_less_same_length:
  fixes a b x y :: string
  assumes "length a = length b"
  shows "a @ x < b @ y \<longleftrightarrow> a < b \<or> a = b \<and> x < y"
  using assms by (induction a b rule: list_induct2) auto

lemma lex_digits:
  fixes qa ra qb rb :: nat
  assumes "ra < 10" "rb < 10"
  shows "qa * 10 + ra < qb * 10 + rb \<longleftrightarrow> qa < qb \<or> qa = qb \<and> ra < rb"
  using assms by linarith

lemma div_mod_less_iff:
  fixes a b :: nat
  shows "a < b \<longleftrightarrow> a div 10 < b div 10 \<or> a div 10 = b div 10 \<and> a mod 10 < b mod 10"
proof -
  have "a div 10 * 10 + a mod 10 < b div 10 * 10 + b mod 10 \<longleftrightarrow>
      a div 10 < b div 10 \<or> a div 10 = b div 10 \<and> a mod 10 < b mod 10"
    by (rule lex_digits) simp_all
  then show ?thesis
    by (simp only: div_mult_mod_eq)
qed

lemma div_mod_eq_iff:
  fixes a b :: nat
  shows "a = b \<longleftrightarrow> a div 10 = b div 10 \<and> a mod 10 = b mod 10"
  by (metis div_mult_mod_eq)

lemma zpad_eq: "0 < w \<Longrightarrow> a < 10 ^ w \<Longrightarrow> b < 10 ^ w \<Longrightarrow> zpad w (dec a) = zpad w (dec b) \<longleftrightarrow> a = b"
proof (induction w arbitrary: a b)
  case 0
  then show ?case by simp
next
  case (Suc w)
  show ?case
  proof (cases "w = 0")
    case True
    with Suc.prems show ?thesis by (simp add: zpad_1 digit_char_eq)
  next
    case False
    then have w: "0 < w" by simp
    from Suc.prems have s: "a div 10 < 10 ^ w" "b div 10 < 10 ^ w"
      by (simp_all add: less_mult_imp_div_less mult.commute)
    have m: "a mod 10 < 10" "b mod 10 < 10"
      by simp_all
    have ih: "zpad w (dec (a div 10)) = zpad w (dec (b div 10)) \<longleftrightarrow> a div 10 = b div 10"
      using w s by (rule Suc.IH)
    have "zpad (Suc w) (dec a) = zpad (Suc w) (dec b) \<longleftrightarrow>
        zpad w (dec (a div 10)) = zpad w (dec (b div 10)) \<and> digit_char (a mod 10) = digit_char (b mod 10)"
      by (simp only: zpad_step [OF w] append1_eq_conv)
    also have "\<dots> \<longleftrightarrow> a div 10 = b div 10 \<and> a mod 10 = b mod 10"
      by (simp only: ih digit_char_eq [OF m])
    also have "\<dots> \<longleftrightarrow> a = b"
      by (rule div_mod_eq_iff [symmetric])
    finally show ?thesis .
  qed
qed

lemma zpad_less: "0 < w \<Longrightarrow> a < 10 ^ w \<Longrightarrow> b < 10 ^ w \<Longrightarrow> zpad w (dec a) < zpad w (dec b) \<longleftrightarrow> a < b"
proof (induction w arbitrary: a b)
  case 0
  then show ?case by simp
next
  case (Suc w)
  show ?case
  proof (cases "w = 0")
    case True
    with Suc.prems show ?thesis by (simp add: zpad_1 digit_char_less)
  next
    case False
    then have w: "0 < w" by simp
    from Suc.prems have s: "a div 10 < 10 ^ w" "b div 10 < 10 ^ w"
      by (simp_all add: less_mult_imp_div_less mult.commute)
    have l: "length (zpad w (dec (a div 10))) = length (zpad w (dec (b div 10)))"
      using w s by (simp add: length_zpad)
    have "zpad w (dec (a div 10)) < zpad w (dec (b div 10)) \<longleftrightarrow> a div 10 < b div 10"
      using w s by (rule Suc.IH)
    moreover have "zpad w (dec (a div 10)) = zpad w (dec (b div 10)) \<longleftrightarrow> a div 10 = b div 10"
      using w s by (rule zpad_eq)
    moreover have "[digit_char (a mod 10)] < [digit_char (b mod 10)] \<longleftrightarrow> a mod 10 < b mod 10"
      by (simp add: digit_char_less)
    ultimately have "zpad (Suc w) (dec a) < zpad (Suc w) (dec b) \<longleftrightarrow>
        a div 10 < b div 10 \<or> a div 10 = b div 10 \<and> a mod 10 < b mod 10"
      by (simp only: zpad_step [OF w] append_less_same_length [OF l])
    also have "\<dots> \<longleftrightarrow> a < b"
      by (rule div_mod_less_iff [symmetric])
    finally show ?thesis .
  qed
qed


subsection \<open>The calendar\<close>

lemma month_cases:
  assumes "1 \<le> m" "m \<le> 12"
  shows "m = 1 \<or> m = 2 \<or> m = 3 \<or> m = 4 \<or> m = 5 \<or> m = 6 \<or> m = 7 \<or> m = 8 \<or> m = 9
    \<or> m = 10 \<or> m = 11 \<or> m = (12::nat)"
  using assms by arith

lemma days_before_month_Suc:
  assumes "1 \<le> m" "m < 12"
  shows "days_before_month y (Suc m) = days_before_month y m + days_in_month y m"
proof -
  from assms have "m = 1 \<or> m = 2 \<or> m = 3 \<or> m = 4 \<or> m = 5 \<or> m = 6 \<or> m = 7 \<or> m = 8 \<or> m = 9
    \<or> m = 10 \<or> m = 11"
    by arith
  then show ?thesis
    by (elim disjE) (simp_all add: days_before_month_def days_in_month_def eval_nat_numeral)
qed

lemma days_before_month_mono:
  "1 \<le> a \<Longrightarrow> a \<le> b \<Longrightarrow> b \<le> 12 \<Longrightarrow> days_before_month y a \<le> days_before_month y b"
proof (induction b)
  case 0
  then show ?case by simp
next
  case (Suc b)
  show ?case
  proof (cases "a = Suc b")
    case True
    then show ?thesis by simp
  next
    case False
    with Suc.prems have "a \<le> b" "b < 12" "1 \<le> b" by simp_all
    with Suc.prems Suc.IH have "days_before_month y a \<le> days_before_month y b" by simp
    also have "\<dots> \<le> days_before_month y (Suc b)"
      using \<open>1 \<le> b\<close> \<open>b < 12\<close> by (simp add: days_before_month_Suc)
    finally show ?thesis .
  qed
qed

lemma day_of_year_bound:
  assumes "1 \<le> m" "m \<le> 12" "d \<le> days_in_month y m"
  shows "days_before_month y m + d \<le> days_in_year y"
proof -
  have "days_before_month y m + days_in_month y m \<le> days_in_year y"
    using month_cases [OF assms(1,2)]
    by (elim disjE) (simp_all add: days_before_month_def days_in_month_def days_in_year_def)
  with assms(3) show ?thesis by linarith
qed

lemma div_Suc_step:
  fixes k :: nat
  assumes "0 < k"
  shows "Suc n div k = n div k + (if Suc n mod k = 0 then 1 else 0)"
  using assms by (simp add: div_Suc mod_Suc split: if_splits)


lemma year_arith:
  fixes N p q r e4 e1 e400 :: nat
  assumes "q \<le> p" "e1 \<le> e4"
  shows "(365 + N) + (p + e4) - (q + e1) + (r + e400) = (N + p - q + r) + (365 + e4 - e1 + e400)"
  using assms by linarith

lemma days_before_year_Suc:
  assumes "1 \<le> y"
  shows "days_before_year (Suc y) = days_before_year y + days_in_year y"
proof -
  obtain n where y: "y = Suc n"
    using assms by (cases y) simp_all
  have a: "Suc n div 4 = n div 4 + (if Suc n mod 4 = 0 then 1 else 0)"
    and b: "Suc n div 100 = n div 100 + (if Suc n mod 100 = 0 then 1 else 0)"
    and c: "Suc n div 400 = n div 400 + (if Suc n mod 400 = 0 then 1 else 0)"
    by (simp_all add: div_Suc_step)
  have le: "n div 100 \<le> n div 4"
    by (rule div_le_mono2) simp_all
  have d1: "Suc n mod 4 = 0" if "Suc n mod 100 = 0"
  proof -
    from that have "100 dvd Suc n" by (simp add: dvd_eq_mod_eq_0)
    moreover have "(4::nat) dvd 100" by simp
    ultimately have "4 dvd Suc n" by (rule dvd_trans [rotated])
    then show ?thesis by (simp add: dvd_eq_mod_eq_0)
  qed
  have d2: "Suc n mod 100 = 0" if "Suc n mod 400 = 0"
  proof -
    from that have "400 dvd Suc n" by (simp add: dvd_eq_mod_eq_0)
    moreover have "(100::nat) dvd 400" by simp
    ultimately have "100 dvd Suc n" by (rule dvd_trans [rotated])
    then show ?thesis by (simp add: dvd_eq_mod_eq_0)
  qed
  define e4 e100 e400 :: nat where
    "e4 = (if Suc n mod 4 = 0 then 1 else 0)" and
    "e100 = (if Suc n mod 100 = 0 then 1 else 0)" and
    "e400 = (if Suc n mod 400 = 0 then 1 else 0)"
  have e: "e100 \<le> e4"
    using d1 by (simp add: e4_def e100_def)
  have diy: "days_in_year (Suc n) = 365 + e4 - e100 + e400"
    using d1 d2 by (simp add: days_in_year_def is_leap_def e4_def e100_def e400_def)
  have a': "Suc n div 4 = n div 4 + e4" and b': "Suc n div 100 = n div 100 + e100"
    and c': "Suc n div 400 = n div 400 + e400"
    by (simp_all only: a b c e4_def e100_def e400_def)
  have m: "Suc n * 365 = 365 + n * 365"
    by simp
  have "Suc n * 365 + Suc n div 4 - Suc n div 100 + Suc n div 400 =
      (365 + n * 365) + (n div 4 + e4) - (n div 100 + e100) + (n div 400 + e400)"
    by (simp only: a' b' c' m)
  also have "\<dots> = (n * 365 + n div 4 - n div 100 + n div 400) + (365 + e4 - e100 + e400)"
    using le e by (rule year_arith)
  also have "\<dots> = (n * 365 + n div 4 - n div 100 + n div 400) + days_in_year (Suc n)"
    by (simp only: diy)
  finally have "Suc n * 365 + Suc n div 4 - Suc n div 100 + Suc n div 400 =
      n * 365 + n div 4 - n div 100 + n div 400 + days_in_year (Suc n)" .
  then show ?thesis
    by (simp only: y days_before_year_def diff_Suc_1)
qed

lemma days_before_year_next:
  "1 \<le> y \<Longrightarrow> y < y' \<Longrightarrow> days_before_year y + days_in_year y \<le> days_before_year y'"
proof (induction y')
  case 0
  then show ?case by simp
next
  case (Suc y')
  show ?case
  proof (cases "y = y'")
    case True
    with Suc.prems show ?thesis by (simp add: days_before_year_Suc)
  next
    case False
    with Suc.prems have "y < y'" "1 \<le> y'" by simp_all
    with Suc.prems Suc.IH have "days_before_year y + days_in_year y \<le> days_before_year y'" by simp
    also have "\<dots> \<le> days_before_year (Suc y')"
      using \<open>1 \<le> y'\<close> by (simp add: days_before_year_Suc)
    finally show ?thesis .
  qed
qed

lemma ymd2ord_less:
  assumes v1: "1 \<le> y1" "1 \<le> m1" "m1 \<le> 12" "1 \<le> d1" "d1 \<le> days_in_month y1 m1"
      and v2: "1 \<le> y2" "1 \<le> m2" "m2 \<le> 12" "1 \<le> d2" "d2 \<le> days_in_month y2 m2"
      and lt: "y1 < y2 \<or> y1 = y2 \<and> (m1 < m2 \<or> m1 = m2 \<and> d1 < d2)"
  shows "ymd2ord y1 m1 d1 < ymd2ord y2 m2 d2"
proof -
  consider "y1 < y2" | "y1 = y2" "m1 < m2" | "y1 = y2" "m1 = m2" "d1 < d2"
    using lt by blast
  then show ?thesis
  proof cases
    case 1
    have "days_before_month y1 m1 + d1 \<le> days_in_year y1"
      using v1 by (simp add: day_of_year_bound)
    moreover have "days_before_year y1 + days_in_year y1 \<le> days_before_year y2"
      using v1 1 by (simp add: days_before_year_next)
    ultimately show ?thesis
      using v2 by (simp add: ymd2ord_def)
  next
    case 2
    then have "Suc m1 \<le> m2" by simp
    then have "days_before_month y1 (Suc m1) \<le> days_before_month y1 m2"
      using v1 v2 by (intro days_before_month_mono) simp_all
    moreover have "days_before_month y1 (Suc m1) = days_before_month y1 m1 + days_in_month y1 m1"
      using v1 v2 2 by (intro days_before_month_Suc) simp_all
    ultimately show ?thesis
      using v1 v2 2 by (simp add: ymd2ord_def)
  next
    case 3
    then show ?thesis by (simp add: ymd2ord_def)
  qed
qed


subsection \<open>Field order and elapsed time\<close>

lemma to_micro_seconds: "to_micro t = to_seconds t * 1000000 + microsecond t"
  by (simp add: to_micro_def to_seconds_def)

lemma time_arith:
  fixes o1 o2 h1 h2 m1 m2 s1 s2 :: nat
  assumes "h1 < 24" "m1 < 60" "s1 < 60" "h2 < 24" "m2 < 60" "s2 < 60"
    and "o1 < o2 \<or> o1 = o2 \<and> (h1 < h2 \<or> h1 = h2 \<and> (m1 < m2 \<or> m1 = m2 \<and> s1 < s2))"
  shows "((o1 * 24 + h1) * 60 + m1) * 60 + s1 < ((o2 * 24 + h2) * 60 + m2) * 60 + s2"
  using assms by (elim disjE conjE; simp add: add_mult_distrib)

lemma fields_less_to_seconds:
  assumes "valid_datetime s" "valid_datetime t" "fields_less s t"
  shows "to_seconds s < to_seconds t"
proof -
  let ?o1 = "ymd2ord (year s) (month s) (day s)" and ?o2 = "ymd2ord (year t) (month t) (day t)"
  have "?o1 < ?o2 \<or> ?o1 = ?o2 \<and>
      (hour s < hour t \<or> hour s = hour t \<and>
        (minute s < minute t \<or> minute s = minute t \<and> second s < second t))"
  proof (cases "year s = year t \<and> month s = month t \<and> day s = day t")
    case True
    with assms(3) show ?thesis by (simp add: fields_less_def)
  next
    case False
    with assms(3) have "year s < year t \<or> year s = year t \<and>
        (month s < month t \<or> month s = month t \<and> day s < day t)"
      unfolding fields_less_def by blast
    with assms(1,2) have "?o1 < ?o2"
      by (intro ymd2ord_less) (simp_all add: valid_datetime_def)
    then show ?thesis by simp
  qed
  with assms(1,2) show ?thesis
    unfolding to_seconds_def by (intro time_arith) (simp_all add: valid_datetime_def)
qed

lemma fields_trichotomy:
  "fields_less s t \<or> fields_less t s
   \<or> (year s = year t \<and> month s = month t \<and> day s = day t
       \<and> hour s = hour t \<and> minute s = minute t \<and> second s = second t)"
  unfolding fields_less_def by (metis nat_neq_iff)

lemma to_seconds_less_fields:
  assumes "valid_datetime s" "valid_datetime t" "to_seconds s < to_seconds t"
  shows "fields_less s t"
proof (rule ccontr)
  assume n: "\<not> fields_less s t"
  from fields_trichotomy [of s t] n consider "fields_less t s"
    | "year s = year t \<and> month s = month t \<and> day s = day t
       \<and> hour s = hour t \<and> minute s = minute t \<and> second s = second t"
    by blast
  then show False
  proof cases
    case 1
    with assms(1,2) have "to_seconds t < to_seconds s" by (simp add: fields_less_to_seconds)
    with assms(3) show False by simp
  next
    case 2
    then have "to_seconds s = to_seconds t" by (simp add: to_seconds_def)
    with assms(3) show False by simp
  qed
qed

lemma one_second_apart:
  assumes "valid_datetime s" "valid_datetime t" "to_micro s + 1000000 \<le> to_micro t"
  shows "to_seconds s < to_seconds t"
proof -
  have "microsecond t < 1000000"
    using assms(2) by (simp add: valid_datetime_def)
  with assms(3) have "to_seconds s * 1000000 + 1000000 < to_seconds t * 1000000 + 1000000"
    by (simp add: to_micro_seconds)
  then show ?thesis by simp
qed


subsection \<open>File names\<close>

lemma days_in_month_le:
  assumes "1 \<le> m" "m \<le> 12"
  shows "days_in_month y m \<le> 31"
  using month_cases [OF assms] by (elim disjE) (simp_all add: days_in_month_def)

lemma valid_fields_bounds:
  assumes "valid_datetime t"
  shows "year t < 10 ^ 4" "month t < 10 ^ 2" "day t < 10 ^ 2" "hour t < 10 ^ 2" "minute t < 10 ^ 2"
    "second t < 10 ^ 2"
proof -
  from assms have "day t \<le> 31"
    using days_in_month_le [of "month t" "year t"] by (simp add: valid_datetime_def)
  with assms show "year t < 10 ^ 4" "month t < 10 ^ 2" "day t < 10 ^ 2" "hour t < 10 ^ 2"
    "minute t < 10 ^ 2" "second t < 10 ^ 2"
    by (simp_all add: valid_datetime_def)
qed

lemma field_less:
  assumes "0 < w" "a < 10 ^ w" "b < 10 ^ w"
  shows "zpad w (dec a) @ x < zpad w (dec b) @ y \<longleftrightarrow> a < b \<or> a = b \<and> x < y"
proof -
  have "length (zpad w (dec a)) = length (zpad w (dec b))"
    using assms by (simp add: length_zpad)
  then have "zpad w (dec a) @ x < zpad w (dec b) @ y \<longleftrightarrow>
      zpad w (dec a) < zpad w (dec b) \<or> zpad w (dec a) = zpad w (dec b) \<and> x < y"
    by (rule append_less_same_length)
  then show ?thesis
    by (simp only: zpad_less [OF assms] zpad_eq [OF assms])
qed

lemma underscore_less: "''_'' @ a < ''_'' @ b \<longleftrightarrow> a < b" for a b :: string
  by simp

lemma strftime_compact_less:
  assumes "valid_datetime s" "valid_datetime t"
  shows "strftime_compact s @ x < strftime_compact t @ x \<longleftrightarrow> fields_less s t"
proof -
  note bs = valid_fields_bounds [OF assms(1)] and bt = valid_fields_bounds [OF assms(2)]
  have two: "0 < (2::nat)" and four: "0 < (4::nat)"
    by simp_all
  have "zpad 2 (dec (second s)) @ x < zpad 2 (dec (second t)) @ x \<longleftrightarrow>
      second s < second t \<or> second s = second t \<and> x < x"
    using two bs(6) bt(6) by (rule field_less)
  then have sec: "zpad 2 (dec (second s)) @ x < zpad 2 (dec (second t)) @ x \<longleftrightarrow> second s < second t"
    by simp
  show ?thesis
    unfolding strftime_compact_def fields_less_def append_assoc
    by (simp only: field_less [OF four bs(1) bt(1)] field_less [OF two bs(2) bt(2)]
        field_less [OF two bs(3) bt(3)] underscore_less field_less [OF two bs(4) bt(4)]
        field_less [OF two bs(5) bt(5)] sec)
qed

lemma report_filename_less:
  assumes "valid_datetime s" "valid_datetime t"
  shows "report_filename s < report_filename t \<longleftrightarrow> fields_less s t"
  using strftime_compact_less [OF assms, of "''.pdf''"] by (simp add: report_filename_def)

text \<open>
  C8. For two valid readings of \<^verbatim>\<open>datetime.now()\<close> of which the second is at least one
  second (1000000 microseconds) later than the first, the report file name of the first is
  strictly smaller than that of the second in lexicographic order: the names differ and
  their order is the order in time.
\<close>

theorem report_filenames_follow_time:
  assumes "valid_datetime s" "valid_datetime t" "to_micro s + 1000000 \<le> to_micro t"
  shows "report_filename s < report_filename t \<and> report_filename s \<noteq> report_filename t
    \<and> \<not> report_filename t < report_filename s"
proof -
  have "to_seconds s < to_seconds t"
    using assms by (rule one_second_apart)
  with assms(1,2) have "fields_less s t"
    by (rule to_seconds_less_fields)
  with assms(1,2) have "report_filename s < report_filename t"
    by (simp add: report_filename_less)
  then show ?thesis by auto
qed

theorem report_filenames_follow_time_witness:
  "valid_datetime stamp0 \<and> valid_datetime stamp1 \<and> to_micro stamp0 + 1000000 \<le> to_micro stamp1
   \<and> report_filename stamp0 < report_filename stamp1"
proof -
  have v: "valid_datetime stamp0" "valid_datetime stamp1"
    by (simp_all add: valid_datetime_def stamp0_def stamp1_def days_in_month_def)
  have d: "to_micro stamp0 + 1000000 \<le> to_micro stamp1"
    by (simp add: to_micro_def stamp0_def stamp1_def)
  show ?thesis
    using v d report_filenames_follow_time [OF v d] by simp
qed

end
